theory Spec2Isabelle
  imports Complex_Main "HOL-Library.AList"
begin

section \<open>Data model\<close>

text \<open>
  The engine of \<^verbatim>\<open>main.py\<close> keeps three module-level globals: \<^verbatim>\<open>FLIGHTS_DB\<close> (a dict
  from a route key to a list of flight dicts), \<^verbatim>\<open>BOOKINGS\<close> (a dict from a booking id to
  a booking dict) and \<^verbatim>\<open>BOOKING_COUNTER\<close> (an int). A Python dict keeps its keys in
  insertion order, so both dicts are association lists here; \<open>map_of\<close> reads a key and
  \<open>AList.update\<close> stores one (in place when the key is there, at the end otherwise).
  Python's ints are unbounded: \<open>int\<close>.

  Amounts of money are Python floats in the source. They are modelled by exact
  rationals, and \<^verbatim>\<open>round(x, 2)\<close> by rounding to the nearest hundredth. A total price is
  an integer times 1, 2.5 or 4, a multiple of \<open>1/2\<close>; the refund and the fee are multiples
  of \<open>1/20\<close>. For products of fare and passengers below \<open>10^12\<close> in size (the inventory's
  fares and seat counts are far below) the float computation yields the double nearest to
  the same two-decimal value. Beyond the float range Python raises OverflowError, which
  the model leaves out.
\<close>

record flight =
  f_id :: string
  f_price :: int
  f_departure :: string
  f_arrival :: string
  f_seats :: int

type_synonym flights_db = "(string \<times> flight list) list"

datatype status = CONFIRMED | CANCELLED

record booking =
  booking_id :: string
  flight_id :: string
  route :: string
  passengers :: int
  cabin_class :: string
  passenger_name :: string
  passenger_email :: string
  total_price :: rat
  departure :: string
  arrival :: string
  status :: status
  booking_date :: string
  cancellation_date :: "string option"

record engine =
  flights_db :: flights_db
  bookings :: "(string \<times> booking) list"
  booking_counter :: int

text \<open>
  Every tool returns a JSON object; an object with an \<^verbatim>\<open>"error"\<close> key is the error
  outcome. One constructor stands for each error message of \<^verbatim>\<open>main.py\<close>, with the fields
  the object carries. \<open>KeyError\<close> is the exception of the cabin multiplier lookup.
\<close>

datatype error =
    InvalidRoute
  | RouteNotFound string string
  | InvalidPassengerCount
  | FlightNotFound string
  | InsufficientSeats int int
  | InvalidEmail
  | BookingNotFound string
  | EmailMismatch
  | AlreadyCancelled
  | KeyError string

record search_result =
  sr_route :: string
  sr_date :: string
  sr_flights :: "flight list"
  sr_count :: nat

record availability =
  a_flight_id :: string
  a_route :: string
  passengers_requested :: int
  seats_available :: int
  can_book :: bool
  price_per_person :: int
  a_total_price :: "int option"
  a_departure :: string
  a_arrival :: string

record cancellation =
  c_booking_id :: string
  refund_amount :: rat
  original_amount :: rat
  cancellation_fee :: rat

section \<open>Seed data\<close>

definition FLIGHTS_DB :: flights_db where
  "FLIGHTS_DB =
    [(''NYC-LON'',
       [\<lparr>f_id = ''BA001'', f_price = 850, f_departure = ''08:00'', f_arrival = ''20:00'', f_seats = 45\<rparr>,
        \<lparr>f_id = ''AA102'', f_price = 920, f_departure = ''14:30'', f_arrival = ''02:30'', f_seats = 12\<rparr>]),
     (''NYC-TYO'',
       [\<lparr>f_id = ''JL005'', f_price = 1200, f_departure = ''13:00'', f_arrival = ''16:00+1'', f_seats = 23\<rparr>,
        \<lparr>f_id = ''AA150'', f_price = 1150, f_departure = ''18:45'', f_arrival = ''22:15+1'', f_seats = 8\<rparr>]),
     (''LAX-TYO'',
       [\<lparr>f_id = ''JL062'', f_price = 980, f_departure = ''11:00'', f_arrival = ''15:30+1'', f_seats = 56\<rparr>,
        \<lparr>f_id = ''NH175'', f_price = 1050, f_departure = ''17:00'', f_arrival = ''21:00+1'', f_seats = 34\<rparr>]),
     (''LON-PAR'',
       [\<lparr>f_id = ''AF318'', f_price = 180, f_departure = ''09:15'', f_arrival = ''11:45'', f_seats = 89\<rparr>,
        \<lparr>f_id = ''BA304'', f_price = 195, f_departure = ''16:00'', f_arrival = ''18:30'', f_seats = 67\<rparr>])]"

definition seed :: engine where
  "seed = \<lparr>flights_db = FLIGHTS_DB, bookings = [], booking_counter = 1000\<rparr>"

section \<open>Helpers of the tools\<close>

text \<open>Python's \<^verbatim>\<open>str\<close> of an int, as the f-string \<^verbatim>\<open>f"BK{BOOKING_COUNTER}"\<close> uses it.\<close>

fun str_nat :: "nat \<Rightarrow> string" where
  "str_nat n =
     (if n < 10 then [char_of (48 + n)]
      else str_nat (n div 10) @ [char_of (48 + n mod 10)])"

declare str_nat.simps [simp del]

definition str_int :: "int \<Rightarrow> string" where
  "str_int i = (if i < 0 then CHR ''-'' # str_nat (nat (- i)) else str_nat (nat i))"

text \<open>
  \<^verbatim>\<open>round(x, 2)\<close>: the nearest multiple of \<open>1/100\<close>, a tie going to the even one.
\<close>

definition round2 :: "rat \<Rightarrow> rat" where
  "round2 x =
     (let y = x * 100; n = \<lfloor>y\<rfloor>; r = y - of_int n
      in of_int (if r < 1 / 2 then n
                 else if 1 / 2 < r then n + 1
                 else if even n then n else n + 1) / 100)"

text \<open>The dict literal \<^verbatim>\<open>{"economy": 1.0, "business": 2.5, "first": 4.0}\<close>.\<close>

definition cabin_multiplier :: "string \<Rightarrow> rat option" where
  "cabin_multiplier c =
     map_of [(''economy'', 1), (''business'', 5 / 2), (''first'', 4)] c"

text \<open>
  The two nested \<^verbatim>\<open>for\<close> loops that look a flight up by id walk the routes in dict
  order and each route's flights in list order, and stop at the first flight whose id
  matches. \<open>find_flight\<close> returns that flight with its route key.
\<close>

fun find_in_route :: "string \<Rightarrow> flight list \<Rightarrow> flight option" where
  "find_in_route fid [] = None"
| "find_in_route fid (f # fs) = (if f_id f = fid then Some f else find_in_route fid fs)"

fun find_flight :: "string \<Rightarrow> flights_db \<Rightarrow> (string \<times> flight) option" where
  "find_flight fid [] = None"
| "find_flight fid ((r, fs) # db) =
     (case find_in_route fid fs of
        Some f \<Rightarrow> Some (r, f)
      | None \<Rightarrow> find_flight fid db)"

text \<open>
  \<^verbatim>\<open>flight["seats"] -= passengers\<close> in \<^verbatim>\<open>book_flight\<close> mutates the flight object the
  loops stopped at: the first match.
\<close>

fun take_in_route :: "string \<Rightarrow> int \<Rightarrow> flight list \<Rightarrow> flight list" where
  "take_in_route fid n [] = []"
| "take_in_route fid n (f # fs) =
     (if f_id f = fid then f\<lparr>f_seats := f_seats f - n\<rparr> # fs
      else f # take_in_route fid n fs)"

fun take_seats :: "string \<Rightarrow> int \<Rightarrow> flights_db \<Rightarrow> flights_db" where
  "take_seats fid n [] = []"
| "take_seats fid n ((r, fs) # db) =
     (case find_in_route fid fs of
        Some f \<Rightarrow> (r, take_in_route fid n fs) # db
      | None \<Rightarrow> (r, fs) # take_seats fid n db)"

text \<open>
  The loops of \<^verbatim>\<open>cancel_booking\<close> have no \<^verbatim>\<open>return\<close> or \<^verbatim>\<open>break\<close>: every flight with the
  id gets the seats back.
\<close>

definition return_seats :: "string \<Rightarrow> int \<Rightarrow> flights_db \<Rightarrow> flights_db" where
  "return_seats fid n db =
     map (\<lambda>(r, fs). (r, map (\<lambda>f. if f_id f = fid then f\<lparr>f_seats := f_seats f + n\<rparr> else f) fs)) db"

text \<open>The arrow of the route label, U+2192 in UTF-8.\<close>

definition arrow :: string where
  "arrow = [CHR 0xE2, CHR 0x86, CHR 0x92]"

section \<open>The five tools of main.py\<close>

definition search_flights ::
  "engine \<Rightarrow> string \<Rightarrow> string \<Rightarrow> string \<Rightarrow> (error + search_result) \<times> engine" where
  "search_flights s origin destination departure_date =
     (if origin = destination then (Inl InvalidRoute, s)
      else
        let flights = (case map_of (flights_db s) (origin @ ''-'' @ destination) of
                         Some fs \<Rightarrow> fs | None \<Rightarrow> [])
        in if flights = [] then (Inl (RouteNotFound origin destination), s)
           else (Inr \<lparr>sr_route = origin @ '' '' @ arrow @ '' '' @ destination,
                      sr_date = departure_date,
                      sr_flights = flights,
                      sr_count = length flights\<rparr>, s))"

definition check_flight_availability ::
  "engine \<Rightarrow> string \<Rightarrow> int \<Rightarrow> (error + availability) \<times> engine" where
  "check_flight_availability s fid n =
     (if n < 1 \<or> n > 9 then (Inl InvalidPassengerCount, s)
      else case find_flight fid (flights_db s) of
        Some (r, f) \<Rightarrow>
          let available = f_seats f; is_available = (available \<ge> n)
          in (Inr \<lparr>a_flight_id = fid,
                   a_route = r,
                   passengers_requested = n,
                   seats_available = available,
                   can_book = is_available,
                   price_per_person = f_price f,
                   a_total_price = (if is_available then Some (f_price f * n) else None),
                   a_departure = f_departure f,
                   a_arrival = f_arrival f\<rparr>, s)
      | None \<Rightarrow> (Inl (FlightNotFound fid), s))"

text \<open>
  \<open>now\<close> is what \<^verbatim>\<open>datetime.now().isoformat()\<close> returns during the call.
\<close>

definition book_flight ::
  "engine \<Rightarrow> string \<Rightarrow> string \<Rightarrow> int \<Rightarrow> string \<Rightarrow> string \<Rightarrow> string
     \<Rightarrow> (error + booking) \<times> engine" where
  "book_flight s now fid n cabin name email =
     (if CHR ''@'' \<notin> set email \<or> CHR ''.'' \<notin> set email then (Inl InvalidEmail, s)
      else case find_flight fid (flights_db s) of
        Some (r, f) \<Rightarrow>
          if f_seats f < n then (Inl (InsufficientSeats n (f_seats f)), s)
          else (case cabin_multiplier cabin of
            None \<Rightarrow> (Inl (KeyError cabin), s)
          | Some multiplier \<Rightarrow>
              let base_price = f_price f;
                  price = of_int (base_price * n) * multiplier;
                  bid = ''BK'' @ str_int (booking_counter s);
                  b = \<lparr>booking_id = bid,
                       flight_id = fid,
                       route = r,
                       passengers = n,
                       cabin_class = cabin,
                       passenger_name = name,
                       passenger_email = email,
                       total_price = round2 price,
                       departure = f_departure f,
                       arrival = f_arrival f,
                       status = CONFIRMED,
                       booking_date = now,
                       cancellation_date = None\<rparr>
              in (Inr b,
                  \<lparr>flights_db = take_seats fid n (flights_db s),
                   bookings = AList.update bid b (bookings s),
                   booking_counter = booking_counter s + 1\<rparr>))
      | None \<Rightarrow> (Inl (FlightNotFound fid), s))"

definition cancel_booking ::
  "engine \<Rightarrow> string \<Rightarrow> string \<Rightarrow> string \<Rightarrow> (error + cancellation) \<times> engine" where
  "cancel_booking s now bid email =
     (case map_of (bookings s) bid of
        None \<Rightarrow> (Inl (BookingNotFound bid), s)
      | Some b \<Rightarrow>
          if passenger_email b \<noteq> email then (Inl EmailMismatch, s)
          else if status b = CANCELLED then (Inl AlreadyCancelled, s)
          else
            let b' = b\<lparr>status := CANCELLED, cancellation_date := Some now\<rparr>;
                refund = total_price b' * (9 / 10)
            in (Inr \<lparr>c_booking_id = bid,
                     refund_amount = round2 refund,
                     original_amount = total_price b',
                     cancellation_fee = round2 (total_price b' * (1 / 10))\<rparr>,
                \<lparr>flights_db = return_seats (flight_id b) (passengers b) (flights_db s),
                 bookings = AList.update bid b' (bookings s),
                 booking_counter = booking_counter s\<rparr>))"

definition view_booking :: "engine \<Rightarrow> string \<Rightarrow> (error + booking) \<times> engine" where
  "view_booking s bid =
     (case map_of (bookings s) bid of
        None \<Rightarrow> (Inl (BookingNotFound bid), s)
      | Some b \<Rightarrow> (Inr b, s))"

section \<open>Sequences of calls\<close>

datatype op =
    Search string string string
  | Check string int
  | Book string string int string string string
  | Cancel string string string
  | View string

datatype response =
    Searched "error + search_result"
  | Checked "error + availability"
  | Booked "error + booking"
  | Cancelled "error + cancellation"
  | Viewed "error + booking"

fun step :: "engine \<Rightarrow> op \<Rightarrow> response \<times> engine" where
  "step s (Search origin destination d) =
     (let (r, s') = search_flights s origin destination d in (Searched r, s'))"
| "step s (Check fid n) =
     (let (r, s') = check_flight_availability s fid n in (Checked r, s'))"
| "step s (Book now fid n cabin name email) =
     (let (r, s') = book_flight s now fid n cabin name email in (Booked r, s'))"
| "step s (Cancel now bid email) =
     (let (r, s') = cancel_booking s now bid email in (Cancelled r, s'))"
| "step s (View bid) =
     (let (r, s') = view_booking s bid in (Viewed r, s'))"

fun run :: "engine \<Rightarrow> op list \<Rightarrow> engine" where
  "run s [] = s"
| "run s (x # xs) = run (snd (step s x)) xs"

fun responses :: "engine \<Rightarrow> op list \<Rightarrow> response list" where
  "responses s [] = []"
| "responses s (x # xs) = fst (step s x) # responses (snd (step s x)) xs"

section \<open>Scenario states\<close>

text \<open>
  The state after the demo's first booking, and the state after that booking is cancelled.
\<close>

definition booked :: engine where
  "booked = snd (book_flight seed ''2025-02-01T10:00:00'' ''JL005'' 2 ''business''
                   ''John Smith'' ''john@email.com'')"

definition cancelled :: engine where
  "cancelled = snd (cancel_booking booked ''2025-02-02T10:00:00'' ''BK1000'' ''john@email.com'')"

definition bk1000 :: booking where
  "bk1000 =
     \<lparr>booking_id = ''BK1000'', flight_id = ''JL005'', route = ''NYC-TYO'', passengers = 2,
      cabin_class = ''business'', passenger_name = ''John Smith'',
      passenger_email = ''john@email.com'', total_price = 6000, departure = ''13:00'',
      arrival = ''16:00+1'', status = CONFIRMED, booking_date = ''2025-02-01T10:00:00'',
      cancellation_date = None\<rparr>"

section \<open>Observations on a state\<close>

definition all_flights :: "flights_db \<Rightarrow> flight list" where
  "all_flights db = concat (map snd db)"

definition seats_of :: "flights_db \<Rightarrow> string \<Rightarrow> int option" where
  "seats_of db fid = map_option (f_seats \<circ> snd) (find_flight fid db)"

text \<open>The passengers of the CONFIRMED bookings of the ledger that reference a flight.\<close>

definition confirmed_passengers :: "(string \<times> booking) list \<Rightarrow> string \<Rightarrow> int" where
  "confirmed_passengers bks fid =
     sum_list (map (\<lambda>(k, b). if status b = CONFIRMED \<and> flight_id b = fid then passengers b else 0) bks)"

text \<open>
  Seat conservation against an initial inventory: every flight lookup reads the initial
  seats less the passengers of the CONFIRMED bookings on the flight.
\<close>

definition conserved :: "flights_db \<Rightarrow> engine \<Rightarrow> bool" where
  "conserved db0 s \<longleftrightarrow>
     (\<forall>fid. seats_of (flights_db s) fid =
        map_option (\<lambda>c. c - confirmed_passengers (bookings s) fid) (seats_of db0 fid))"

text \<open>No booking request of a run asks for a negative number of passengers.\<close>

definition counts_nonneg :: "op list \<Rightarrow> bool" where
  "counts_nonneg ops \<longleftrightarrow>
     (\<forall>x \<in> set ops. case x of Book now fid n cabin name email \<Rightarrow> 0 \<le> n | _ \<Rightarrow> True)"

text \<open>No stored passenger count and no seat count is negative.\<close>

definition within_capacity :: "engine \<Rightarrow> bool" where
  "within_capacity s \<longleftrightarrow>
     (\<forall>p \<in> set (bookings s). 0 \<le> passengers (snd p)) \<and>
     (\<forall>fid c. seats_of (flights_db s) fid = Some c \<longrightarrow> 0 \<le> c)"

text \<open>The booking ids that the successful \<^verbatim>\<open>book_flight\<close> calls of a run returned.\<close>

fun allocated :: "response list \<Rightarrow> string list" where
  "allocated [] = []"
| "allocated (Booked (Inr b) # rs) = booking_id b # allocated rs"
| "allocated (r # rs) = allocated rs"

text \<open>
  Every key of the ledger is "BK" followed by a number below the counter: the next id is
  not in the ledger yet.
\<close>

definition ids_below_counter :: "engine \<Rightarrow> bool" where
  "ids_below_counter s \<longleftrightarrow>
     (\<forall>k \<in> set (map fst (bookings s)). \<exists>i < booking_counter s. k = ''BK'' @ str_int i)"

text \<open>
  A state evolves by engine calls and by changes of the inventory made outside the engine
  (a fare or a capacity edited in \<^verbatim>\<open>FLIGHTS_DB\<close>); the engine has no operation of its
  own that edits a fare.
\<close>

datatype event = Call op | Edit flights_db

fun apply_event :: "engine \<Rightarrow> event \<Rightarrow> engine" where
  "apply_event s (Call x) = snd (step s x)"
| "apply_event s (Edit db) = s\<lparr>flights_db := db\<rparr>"

fun evolve :: "engine \<Rightarrow> event list \<Rightarrow> engine" where
  "evolve s [] = s"
| "evolve s (e # es) = evolve (apply_event s e) es"

section \<open>The mock variant\<close>

text \<open>
  \<^verbatim>\<open>flight_booking_system_mock.py\<close> carries its own copy of three of the tools, under the
  heading "TOOLS (Same as real version)", over a three-route inventory. Its bookings have
  fewer fields and its errors are the messages below. It has no \<^verbatim>\<open>cancel_booking\<close> and no
  \<^verbatim>\<open>view_booking\<close>.
\<close>

record mock_booking =
  mb_booking_id :: string
  mb_flight_id :: string
  mb_passengers :: int
  mb_cabin_class :: string
  mb_passenger_name :: string
  mb_total_price :: rat
  mb_status :: status

record mock_engine =
  m_flights_db :: flights_db
  m_bookings :: "(string \<times> mock_booking) list"
  m_booking_counter :: int

datatype mock_error =
    NoFlightsForRoute string string
  | MockFlightNotFound string
  | MockInsufficientSeats
  | MockKeyError string


definition mock_FLIGHTS_DB :: flights_db where
  "mock_FLIGHTS_DB =
    [(''NYC-LON'',
       [\<lparr>f_id = ''BA001'', f_price = 850, f_departure = ''08:00'', f_arrival = ''20:00'', f_seats = 45\<rparr>,
        \<lparr>f_id = ''AA102'', f_price = 920, f_departure = ''14:30'', f_arrival = ''02:30'', f_seats = 12\<rparr>]),
     (''NYC-TYO'',
       [\<lparr>f_id = ''JL005'', f_price = 1200, f_departure = ''13:00'', f_arrival = ''16:00+1'', f_seats = 23\<rparr>,
        \<lparr>f_id = ''AA150'', f_price = 1150, f_departure = ''18:45'', f_arrival = ''22:15+1'', f_seats = 8\<rparr>]),
     (''LAX-TYO'',
       [\<lparr>f_id = ''JL062'', f_price = 980, f_departure = ''11:00'', f_arrival = ''15:30+1'', f_seats = 56\<rparr>,
        \<lparr>f_id = ''NH175'', f_price = 1050, f_departure = ''17:00'', f_arrival = ''21:00+1'', f_seats = 34\<rparr>])]"

definition mock_seed :: mock_engine where
  "mock_seed = \<lparr>m_flights_db = mock_FLIGHTS_DB, m_bookings = [], m_booking_counter = 1000\<rparr>"



definition mock_book_flight ::
  "mock_engine \<Rightarrow> string \<Rightarrow> int \<Rightarrow> string \<Rightarrow> string \<Rightarrow> string
     \<Rightarrow> (mock_error + mock_booking) \<times> mock_engine" where
  "mock_book_flight s fid n cabin name email =
     (case find_flight fid (m_flights_db s) of
        Some (r, f) \<Rightarrow>
          if f_seats f < n then (Inl MockInsufficientSeats, s)
          else (case cabin_multiplier cabin of
            None \<Rightarrow> (Inl (MockKeyError cabin), s)
          | Some multiplier \<Rightarrow>
              let base_price = f_price f;
                  price = of_int (base_price * n) * multiplier;
                  bid = ''BK'' @ str_int (m_booking_counter s);
                  b = \<lparr>mb_booking_id = bid,
                       mb_flight_id = fid,
                       mb_passengers = n,
                       mb_cabin_class = cabin,
                       mb_passenger_name = name,
                       mb_total_price = round2 price,
                       mb_status = CONFIRMED\<rparr>
              in (Inr b,
                  \<lparr>m_flights_db = take_seats fid n (m_flights_db s),
                   m_bookings = AList.update bid b (m_bookings s),
                   m_booking_counter = m_booking_counter s + 1\<rparr>))
      | None \<Rightarrow> (Inl (MockFlightNotFound fid), s))"

section \<open>Facts about the helpers\<close>

lemma find_in_route_id: "find_in_route fid fs = Some f \<Longrightarrow> f_id f = fid"
  by (induction fs) (auto split: if_splits)

lemma find_in_route_take_same:
  "find_in_route fid fs = Some f \<Longrightarrow>
   find_in_route fid (take_in_route fid n fs) = Some (f\<lparr>f_seats := f_seats f - n\<rparr>)"
  by (induction fs) auto

lemma find_in_route_take_other:
  "fid' \<noteq> fid \<Longrightarrow> find_in_route fid' (take_in_route fid n fs) = find_in_route fid' fs"
  by (induction fs) auto

lemma find_flight_take_same:
  "find_flight fid db = Some (r, f) \<Longrightarrow>
   find_flight fid (take_seats fid n db) = Some (r, f\<lparr>f_seats := f_seats f - n\<rparr>)"
  by (induction db) (auto simp: find_in_route_take_same split: option.splits)

lemma find_flight_take_other:
  "fid' \<noteq> fid \<Longrightarrow> find_flight fid' (take_seats fid n db) = find_flight fid' db"
  by (induction db) (auto simp: find_in_route_take_other split: option.splits)

lemma find_in_route_return:
  "find_in_route fid' (map (\<lambda>f. if f_id f = fid then f\<lparr>f_seats := f_seats f + n\<rparr> else f) fs) =
   map_option (\<lambda>f. if fid' = fid then f\<lparr>f_seats := f_seats f + n\<rparr> else f) (find_in_route fid' fs)"
  by (induction fs) auto

lemma find_flight_return:
  "find_flight fid' (return_seats fid n db) =
   map_option (\<lambda>(r, f). (r, if fid' = fid then f\<lparr>f_seats := f_seats f + n\<rparr> else f))
     (find_flight fid' db)"
  by (induction db) (auto simp: return_seats_def find_in_route_return split: option.splits)

lemma map_of_update_same: "map_of (AList.update k v al) k = Some v"
  by (simp add: update_conv')

lemma map_of_update_other: "k' \<noteq> k \<Longrightarrow> map_of (AList.update k v al) k' = map_of al k'"
  by (simp add: update_conv')


lemma str_int_1000: "str_int 1000 = ''1000''"
  by code_simp

lemma find_JL005: "find_flight ''JL005'' FLIGHTS_DB =
  Some (''NYC-TYO'', \<lparr>f_id = ''JL005'', f_price = 1200, f_departure = ''13:00'',
                       f_arrival = ''16:00+1'', f_seats = 23\<rparr>)"
  by (simp add: FLIGHTS_DB_def)

section \<open>The decimal rendering of the counter is injective\<close>

lemma digit_char_inj:
  "a < 10 \<Longrightarrow> b < 10 \<Longrightarrow> char_of (48 + a) = (char_of (48 + b :: nat) :: char) \<Longrightarrow> a = b"
  by (simp add: char_of_eq_iff take_bit_nat_eq_self)

lemma digit_char_not_minus: "a < 10 \<Longrightarrow> char_of (48 + a :: nat) \<noteq> CHR ''-''"
proof -
  assume a: "a < 10"
  have "CHR ''-'' = char_of (45 :: nat)" by code_simp
  moreover have "char_of (48 + a) \<noteq> (char_of (45 :: nat) :: char)"
    using a by (simp add: char_of_eq_iff take_bit_nat_eq_self)
  ultimately show ?thesis by simp
qed

lemma str_nat_not_Nil: "str_nat n \<noteq> []"
  by (subst str_nat.simps) simp

lemma last_str_nat: "last (str_nat n) = char_of (48 + n mod 10)"
  by (subst str_nat.simps) simp

lemma butlast_str_nat: "butlast (str_nat n) = (if n < 10 then [] else str_nat (n div 10))"
  by (subst str_nat.simps) simp

lemma str_nat_inj: "str_nat n = str_nat m \<Longrightarrow> n = m"
proof (induction n arbitrary: m rule: str_nat.induct)
  case (1 n)
  from "1.prems" have l: "last (str_nat n) = last (str_nat m)"
    and b: "butlast (str_nat n) = butlast (str_nat m)"
    by simp_all
  from l have "char_of (48 + n mod 10) = (char_of (48 + m mod 10) :: char)"
    by (simp add: last_str_nat)
  then have d: "n mod 10 = m mod 10"
    by (rule digit_char_inj [rotated 2]) simp_all
  show ?case
  proof (cases "n < 10")
    case True
    with b have "m < 10"
      using str_nat_not_Nil [of "m div 10"]
      by (auto simp: butlast_str_nat split: if_splits)
    with True d show ?thesis by simp
  next
    case False
    with b have m: "\<not> m < 10" and "str_nat (n div 10) = str_nat (m div 10)"
      using str_nat_not_Nil [of "n div 10"]
      by (auto simp: butlast_str_nat split: if_splits)
    with False "1.IH" have "n div 10 = m div 10" by simp
    with d show ?thesis
      by (metis div_mult_mod_eq)
  qed
qed

lemma hd_str_nat: "hd (str_nat n) \<noteq> CHR ''-''"
proof (induction n rule: str_nat.induct)
  case (1 n)
  show ?case
  proof (cases "n < 10")
    case True
    then show ?thesis
      by (subst str_nat.simps) (simp add: digit_char_not_minus)
  next
    case False
    with "1.IH" show ?thesis
      by (subst str_nat.simps) (simp add: str_nat_not_Nil)
  qed
qed

lemma str_int_inj: "str_int i = str_int j \<Longrightarrow> i = j"
proof -
  assume e: "str_int i = str_int j"
  have neg: "CHR ''-'' # str_nat a \<noteq> str_nat b" for a b
    using hd_str_nat [of b] by (metis list.sel(1))
  show ?thesis
  proof (cases "i < 0"; cases "j < 0")
    assume "i < 0" "j < 0"
    with e have "nat (- i) = nat (- j)"
      by (simp add: str_int_def str_nat_inj)
    with \<open>i < 0\<close> \<open>j < 0\<close> show ?thesis by simp
  next
    assume "i < 0" "\<not> j < 0"
    with e neg show ?thesis by (simp add: str_int_def)
  next
    assume "\<not> i < 0" "j < 0"
    with e neg [of "nat (- j)" "nat i"] show ?thesis by (simp add: str_int_def)
  next
    assume "\<not> i < 0" "\<not> j < 0"
    with e have "nat i = nat j"
      by (simp add: str_int_def str_nat_inj)
    with \<open>\<not> i < 0\<close> \<open>\<not> j < 0\<close> show ?thesis by simp
  qed
qed

section \<open>A successful booking\<close>






text \<open>
  The copy of \<^verbatim>\<open>book_flight\<close> in the mock variant does the same on success, for any
  email: it has no email check.
\<close>

lemma mock_book_flight_ok:
  assumes "find_flight fid (m_flights_db s) = Some (r, f)"
    and "f_seats f \<ge> n"
    and "cabin_multiplier cabin = Some m"
  shows "\<exists>b s'. mock_book_flight s fid n cabin name email = (Inr b, s') \<and>
           find_flight fid (m_flights_db s') = Some (r, f\<lparr>f_seats := f_seats f - n\<rparr>) \<and>
           (\<forall>fid'. fid' \<noteq> fid \<longrightarrow>
              find_flight fid' (m_flights_db s') = find_flight fid' (m_flights_db s)) \<and>
           mb_booking_id b = ''BK'' @ str_int (m_booking_counter s) \<and>
           m_booking_counter s' = m_booking_counter s + 1 \<and>
           map_of (m_bookings s') (mb_booking_id b) = Some b \<and>
           (\<forall>k. k \<noteq> mb_booking_id b \<longrightarrow> map_of (m_bookings s') k = map_of (m_bookings s) k) \<and>
           mb_status b = CONFIRMED \<and> mb_flight_id b = fid \<and> mb_passengers b = n \<and>
           mb_total_price b = round2 (of_int (f_price f) * of_int n * m)"
  using assms
  by (simp add: mock_book_flight_def Let_def find_flight_take_same find_flight_take_other
      map_of_update_same map_of_update_other)

lemma mock_book_flight_JL005:
  "fst (mock_book_flight mock_seed ''JL005'' 2 ''business'' ''Sarah Chen'' ''sarah.chen@email.com'') =
     Inr \<lparr>mb_booking_id = ''BK1000'', mb_flight_id = ''JL005'', mb_passengers = 2,
          mb_cabin_class = ''business'', mb_passenger_name = ''Sarah Chen'',
          mb_total_price = 6000, mb_status = CONFIRMED\<rparr> \<and>
   seats_of (m_flights_db (snd (mock_book_flight mock_seed ''JL005'' 2 ''business''
                                  ''Sarah Chen'' ''sarah.chen@email.com''))) ''JL005'' = Some 21"
  by code_simp

section \<open>The error outcomes of a booking\<close>

text \<open>
  The checks of \<^verbatim>\<open>book_flight\<close> in \<^verbatim>\<open>main.py\<close>, in their order: the email shape, the
  flight lookup, the seat count. Each error leaves the state as it was.
\<close>

lemma book_flight_error_order:
  "(fst (book_flight s now fid n cabin name email) = Inl InvalidEmail \<longleftrightarrow>
      (CHR ''@'' \<notin> set email \<or> CHR ''.'' \<notin> set email)) \<and>
   (CHR ''@'' \<in> set email \<and> CHR ''.'' \<in> set email \<longrightarrow>
      ((\<exists>x. fst (book_flight s now fid n cabin name email) = Inl (FlightNotFound x)) \<longleftrightarrow>
         find_flight fid (flights_db s) = None) \<and>
      (find_flight fid (flights_db s) = None \<longrightarrow>
         fst (book_flight s now fid n cabin name email) = Inl (FlightNotFound fid))) \<and>
   (\<forall>r f. CHR ''@'' \<in> set email \<and> CHR ''.'' \<in> set email \<and>
      find_flight fid (flights_db s) = Some (r, f) \<longrightarrow>
      ((\<exists>x y. fst (book_flight s now fid n cabin name email) = Inl (InsufficientSeats x y)) \<longleftrightarrow>
         f_seats f < n) \<and>
      (f_seats f < n \<longrightarrow>
         fst (book_flight s now fid n cabin name email) = Inl (InsufficientSeats n (f_seats f)))) \<and>
   (\<forall>e. fst (book_flight s now fid n cabin name email) = Inl e \<longrightarrow>
      snd (book_flight s now fid n cabin name email) = s)"
  by (auto simp: book_flight_def Let_def split: option.splits)

lemma book_flight_JL005_50:
  "book_flight seed now ''JL005'' 50 ''economy'' ''John Smith'' ''john@email.com'' =
     (Inl (InsufficientSeats 50 23), seed)"
  by (simp add: book_flight_def seed_def find_JL005)


section \<open>A successful cancellation\<close>

lemma booked_bookings: "bookings booked = [(''BK1000'', bk1000)]"
  by code_simp

lemma booked_JL005: "find_flight ''JL005'' (flights_db booked) =
   Some (''NYC-TYO'', \<lparr>f_id = ''JL005'', f_price = 1200, f_departure = ''13:00'',
                       f_arrival = ''16:00+1'', f_seats = 21\<rparr>)"
  by code_simp

lemma round2_5400: "round2 5400 = 5400"
  by code_simp

lemma round2_600: "round2 600 = 600"
  by code_simp


lemma cancel_booking_BK1000:
  "\<exists>c s'. cancel_booking booked now ''BK1000'' ''john@email.com'' = (Inr c, s') \<and>
      refund_amount c = 5400 \<and> cancellation_fee c = 600 \<and>
      seats_of (flights_db s') ''JL005'' = Some 23"
  by (simp add: cancel_booking_def booked_bookings Let_def find_flight_return booked_JL005
      seats_of_def bk1000_def round2_5400 round2_600)



section \<open>The error outcomes of a cancellation\<close>

text \<open>
  C5. \<open>cancel_booking\<close> answers "not found" exactly when the ledger has no booking
  under the id; with a booking there, "email does not match" exactly when the stored
  email differs from the supplied string; with the emails equal, "already cancelled"
  exactly when the status is CANCELLED. Every error leaves the whole state as it was.
  After a successful cancellation, every further cancellation of the same id is an error
  (for the same email, "already cancelled") and changes nothing.
\<close>

theorem cancel_booking_errors:
  "((\<exists>x. fst (cancel_booking s now bid email) = Inl (BookingNotFound x)) \<longleftrightarrow>
      map_of (bookings s) bid = None) \<and>
   (\<forall>b. map_of (bookings s) bid = Some b \<longrightarrow>
      (fst (cancel_booking s now bid email) = Inl EmailMismatch \<longleftrightarrow> passenger_email b \<noteq> email)) \<and>
   (\<forall>b. map_of (bookings s) bid = Some b \<and> passenger_email b = email \<longrightarrow>
      (fst (cancel_booking s now bid email) = Inl AlreadyCancelled \<longleftrightarrow> status b = CANCELLED)) \<and>
   (\<forall>e. fst (cancel_booking s now bid email) = Inl e \<longrightarrow>
      snd (cancel_booking s now bid email) = s) \<and>
   (\<forall>c s'. cancel_booking s now bid email = (Inr c, s') \<longrightarrow>
      (\<forall>now' email'. \<exists>e. cancel_booking s' now' bid email' = (Inl e, s') \<and>
         (email' = email \<longrightarrow> e = AlreadyCancelled)))"
  by (auto simp: cancel_booking_def Let_def map_of_update_same split: option.splits if_splits)

theorem cancel_booking_errors_witness:
  "fst (cancel_booking seed ''2025-02-02T10:00:00'' ''BK1000'' ''john@email.com'') =
     Inl (BookingNotFound ''BK1000'') \<and>
   cancel_booking booked ''2025-02-02T10:00:00'' ''BK1000'' ''wrong@email.com'' =
     (Inl EmailMismatch, booked) \<and>
   cancel_booking booked ''2025-02-02T10:00:00'' ''BK1000'' ''John@email.com'' =
     (Inl EmailMismatch, booked) \<and>
   cancel_booking cancelled ''2025-02-03T10:00:00'' ''BK1000'' ''john@email.com'' =
     (Inl AlreadyCancelled, cancelled)"
proof -
  have b: "map_of (bookings booked) ''BK1000'' = Some bk1000"
    by (simp add: booked_bookings)
  have e: "passenger_email bk1000 \<noteq> ''wrong@email.com''"
    by (simp add: bk1000_def)
  have "map_of (bookings seed) ''BK1000'' = None"
    by (simp add: seed_def)
  with cancel_booking_errors [of seed "''2025-02-02T10:00:00''" "''BK1000''" "''john@email.com''"]
  have 1: "fst (cancel_booking seed ''2025-02-02T10:00:00'' ''BK1000'' ''john@email.com'') =
     Inl (BookingNotFound ''BK1000'')"
    by (auto simp: cancel_booking_def)
  from cancel_booking_errors [of booked "''2025-02-02T10:00:00''" "''BK1000''" "''wrong@email.com''"] b e
  have 2: "cancel_booking booked ''2025-02-02T10:00:00'' ''BK1000'' ''wrong@email.com'' =
     (Inl EmailMismatch, booked)"
    by (metis prod.collapse)
  obtain c where c: "cancel_booking booked ''2025-02-02T10:00:00'' ''BK1000'' ''john@email.com'' =
      (Inr c, cancelled)"
    using cancel_booking_BK1000 [of "''2025-02-02T10:00:00''"]
    by (auto simp: cancelled_def)
  from cancel_booking_errors [of booked "''2025-02-02T10:00:00''" "''BK1000''" "''john@email.com''"] c
  have 3: "cancel_booking cancelled ''2025-02-03T10:00:00'' ''BK1000'' ''john@email.com'' =
     (Inl AlreadyCancelled, cancelled)"
    by blast
  have e': "passenger_email bk1000 \<noteq> ''John@email.com''"
    by (simp add: bk1000_def)
  from cancel_booking_errors [of booked "''2025-02-02T10:00:00''" "''BK1000''" "''John@email.com''"] b e'
  have 4: "cancel_booking booked ''2025-02-02T10:00:00'' ''BK1000'' ''John@email.com'' =
     (Inl EmailMismatch, booked)"
    by (metis prod.collapse)
  from 1 2 3 4 show ?thesis by simp
qed

section \<open>Searching\<close>

text \<open>
  \<^verbatim>\<open>search_flights\<close> of \<^verbatim>\<open>main.py\<close>: equal codes are refused first; a route key that is
  absent or has an empty list is "no flights available"; otherwise the stored list comes
  back as it is, with the date of the call. The state is never changed.
\<close>

lemma search_flights_spec:
  "(origin = destination \<longrightarrow> fst (search_flights s origin destination d) = Inl InvalidRoute) \<and>
   (origin \<noteq> destination \<and>
      (map_of (flights_db s) (origin @ ''-'' @ destination) = None \<or>
       map_of (flights_db s) (origin @ ''-'' @ destination) = Some []) \<longrightarrow>
      fst (search_flights s origin destination d) = Inl (RouteNotFound origin destination)) \<and>
   (\<forall>fs. origin \<noteq> destination \<and> fs \<noteq> [] \<and>
      map_of (flights_db s) (origin @ ''-'' @ destination) = Some fs \<longrightarrow>
      (\<exists>res. fst (search_flights s origin destination d) = Inr res \<and>
         sr_flights res = fs \<and> sr_date res = d \<and> sr_count res = length fs)) \<and>
   snd (search_flights s origin destination d) = s"
  by (auto simp: search_flights_def Let_def split: option.splits)


section \<open>Checking availability\<close>

text \<open>
  \<^verbatim>\<open>check_flight_availability\<close> of \<^verbatim>\<open>main.py\<close>: a count outside 1 to 9 is refused first,
  then an unknown flight; otherwise the report says whether the seats suffice and quotes
  price times passengers exactly when they do. The state is never changed.
\<close>

lemma check_flight_availability_spec:
  "((n < 1 \<or> 9 < n) \<longrightarrow> fst (check_flight_availability s fid n) = Inl InvalidPassengerCount) \<and>
   (1 \<le> n \<and> n \<le> 9 \<and> find_flight fid (flights_db s) = None \<longrightarrow>
      fst (check_flight_availability s fid n) = Inl (FlightNotFound fid)) \<and>
   (\<forall>r f. 1 \<le> n \<and> n \<le> 9 \<and> find_flight fid (flights_db s) = Some (r, f) \<longrightarrow>
      (\<exists>a. fst (check_flight_availability s fid n) = Inr a \<and>
         can_book a = (f_seats f \<ge> n) \<and>
         seats_available a = f_seats f \<and> passengers_requested a = n \<and>
         price_per_person a = f_price f \<and>
         a_total_price a = (if can_book a then Some (f_price f * n) else None))) \<and>
   snd (check_flight_availability s fid n) = s"
  by (auto simp: check_flight_availability_def Let_def split: option.splits)

lemma check_flight_availability_JL005:
  "\<exists>a. fst (check_flight_availability seed ''JL005'' 2) = Inr a \<and>
     can_book a \<and> a_total_price a = Some 2400"
  by (simp add: check_flight_availability_def seed_def find_JL005)


section \<open>The effect of one call on the state\<close>

text \<open>
  A call either leaves the state as it is (every read and every error), or is a successful
  booking, or is a successful cancellation.
\<close>

lemma keys_update:
  "map fst (AList.update k v al) = (if k \<in> set (map fst al) then map fst al else map fst al @ [k])"
  by (simp add: update_keys)

lemma set_keys_update: "set (map fst (AList.update k v al)) = insert k (set (map fst al))"
  by (auto simp: keys_update)

lemma next_id_fresh:
  "ids_below_counter s \<Longrightarrow> ''BK'' @ str_int (booking_counter s) \<notin> set (map fst (bookings s))"
  unfolding ids_below_counter_def
  using str_int_inj by fastforce

lemma book_flight_Inl: "book_flight s now fid n cabin name email = (Inl e, s') \<Longrightarrow> s' = s"
  by (auto simp: book_flight_def Let_def split: option.splits if_splits)

lemma book_flight_Inr:
  "book_flight s now fid n cabin name email = (Inr b, s') \<Longrightarrow>
     booking_id b = ''BK'' @ str_int (booking_counter s) \<and>
     flight_id b = fid \<and> passengers b = n \<and> status b = CONFIRMED \<and>
     (\<exists>rt fl. find_flight fid (flights_db s) = Some (rt, fl) \<and> n \<le> f_seats fl) \<and>
     s' = \<lparr>flights_db = take_seats fid n (flights_db s),
           bookings = AList.update (booking_id b) b (bookings s),
           booking_counter = booking_counter s + 1\<rparr>"
  by (auto simp: book_flight_def Let_def split: option.splits if_splits)

lemma cancel_booking_Inl: "cancel_booking s now bid email = (Inl e, s') \<Longrightarrow> s' = s"
  by (auto simp: cancel_booking_def Let_def split: option.splits if_splits)

lemma cancel_booking_Inr:
  "cancel_booking s now bid email = (Inr c, s') \<Longrightarrow>
     (\<exists>b. map_of (bookings s) bid = Some b \<and> status b = CONFIRMED \<and>
          s' = \<lparr>flights_db = return_seats (flight_id b) (passengers b) (flights_db s),
                bookings = AList.update bid (b\<lparr>status := CANCELLED, cancellation_date := Some now\<rparr>)
                             (bookings s),
                booking_counter = booking_counter s\<rparr>)"
  by (auto simp: cancel_booking_def Let_def split: option.splits if_splits intro: status.exhaust)

lemma step_shape:
  "(snd (step s x) = s \<and> allocated [fst (step s x)] = []) \<or>
   (\<exists>now fid n cabin name email b. x = Book now fid n cabin name email \<and>
       fst (step s x) = Booked (Inr b) \<and>
       booking_id b = ''BK'' @ str_int (booking_counter s) \<and>
       flight_id b = fid \<and> passengers b = n \<and> status b = CONFIRMED \<and>
       (\<exists>rt fl. find_flight fid (flights_db s) = Some (rt, fl) \<and> n \<le> f_seats fl) \<and>
       snd (step s x) = \<lparr>flights_db = take_seats fid n (flights_db s),
                bookings = AList.update (booking_id b) b (bookings s),
                booking_counter = booking_counter s + 1\<rparr>) \<or>
   (\<exists>now bid email b. x = Cancel now bid email \<and>
       allocated [fst (step s x)] = [] \<and>
       map_of (bookings s) bid = Some b \<and> status b = CONFIRMED \<and>
       snd (step s x) = \<lparr>flights_db = return_seats (flight_id b) (passengers b) (flights_db s),
                bookings = AList.update bid (b\<lparr>status := CANCELLED, cancellation_date := Some now\<rparr>)
                             (bookings s),
                booking_counter = booking_counter s\<rparr>)"
proof (cases x)
  case (Search a b c)
  then show ?thesis by (simp add: search_flights_def Let_def)
next
  case (Check a b)
  then show ?thesis
    by (simp add: check_flight_availability_def Let_def split: option.splits)
next
  case (Book now fid n cabin name email)
  obtain r s' where e: "book_flight s now fid n cabin name email = (r, s')"
    by (cases "book_flight s now fid n cabin name email")
  show ?thesis
  proof (cases r)
    case (Inl err)
    with e book_flight_Inl [of s now fid n cabin name email err s'] Book show ?thesis
      by simp
  next
    case (Inr b)
    with e book_flight_Inr [of s now fid n cabin name email b s'] Book show ?thesis
      by simp
  qed
next
  case (Cancel now bid email)
  obtain r s' where e: "cancel_booking s now bid email = (r, s')"
    by (cases "cancel_booking s now bid email")
  show ?thesis
  proof (cases r)
    case (Inl err)
    with e cancel_booking_Inl [of s now bid email err s'] Cancel show ?thesis
      by simp
  next
    case (Inr c)
    with e cancel_booking_Inr [of s now bid email c s'] Cancel show ?thesis
      by auto
  qed
next
  case (View bid)
  then show ?thesis by (simp add: view_booking_def split: option.splits)
qed

lemma step_cases [case_names unchanged book cancel]:
  obtains
    (unchanged) "snd (step s x) = s" "allocated [fst (step s x)] = []"
  | (book) now fid n cabin name email b where
      "x = Book now fid n cabin name email"
      "fst (step s x) = Booked (Inr b)"
      "booking_id b = ''BK'' @ str_int (booking_counter s)"
      "flight_id b = fid" "passengers b = n" "status b = CONFIRMED"
      "\<exists>rt fl. find_flight fid (flights_db s) = Some (rt, fl) \<and> n \<le> f_seats fl"
      "snd (step s x) = \<lparr>flights_db = take_seats fid n (flights_db s),
                bookings = AList.update (booking_id b) b (bookings s),
                booking_counter = booking_counter s + 1\<rparr>"
  | (cancel) now bid email b where
      "x = Cancel now bid email"
      "allocated [fst (step s x)] = []"
      "map_of (bookings s) bid = Some b" "status b = CONFIRMED"
      "snd (step s x) = \<lparr>flights_db = return_seats (flight_id b) (passengers b) (flights_db s),
                bookings = AList.update bid (b\<lparr>status := CANCELLED, cancellation_date := Some now\<rparr>)
                             (bookings s),
                booking_counter = booking_counter s\<rparr>"
  using step_shape [of s x] by blast

lemma map_of_is_key: "map_of al k = Some v \<Longrightarrow> k \<in> set (map fst al)"
  by (metis map_of_eq_None_iff option.distinct(1) set_map)

lemma ids_below_counter_add:
  assumes "ids_below_counter s"
  shows "ids_below_counter
           \<lparr>flights_db = db,
            bookings = AList.update (''BK'' @ str_int (booking_counter s)) b (bookings s),
            booking_counter = booking_counter s + 1\<rparr>"
  unfolding ids_below_counter_def
proof
  fix k
  assume "k \<in> set (map fst (bookings
           \<lparr>flights_db = db,
            bookings = AList.update (''BK'' @ str_int (booking_counter s)) b (bookings s),
            booking_counter = booking_counter s + 1\<rparr>))"
  then have "k = ''BK'' @ str_int (booking_counter s) \<or> k \<in> set (map fst (bookings s))"
    by (simp add: set_keys_update del: set_map)
  then have "\<exists>i < booking_counter s + 1. k = ''BK'' @ str_int i"
  proof
    assume "k = ''BK'' @ str_int (booking_counter s)"
    then show ?thesis by (intro exI [of _ "booking_counter s"]) simp
  next
    assume "k \<in> set (map fst (bookings s))"
    with assms obtain i where "i < booking_counter s" "k = ''BK'' @ str_int i"
      unfolding ids_below_counter_def by blast
    then show ?thesis by (intro exI [of _ i]) simp
  qed
  then show "\<exists>i < booking_counter
           \<lparr>flights_db = db,
            bookings = AList.update (''BK'' @ str_int (booking_counter s)) b (bookings s),
            booking_counter = booking_counter s + 1\<rparr>. k = ''BK'' @ str_int i"
    by simp
qed

lemma ids_below_counter_change:
  assumes "ids_below_counter s" and "k \<in> set (map fst (bookings s))"
  shows "ids_below_counter
           \<lparr>flights_db = db, bookings = AList.update k b (bookings s),
            booking_counter = booking_counter s\<rparr>"
proof -
  from assms(2) have "set (map fst (AList.update k b (bookings s))) = set (map fst (bookings s))"
    by (auto simp: set_keys_update simp del: set_map)
  with assms(1) show ?thesis
    unfolding ids_below_counter_def by (simp del: set_map)
qed

lemma ids_below_counter_step:
  assumes "ids_below_counter s"
  shows "ids_below_counter (snd (step s x))"
proof (cases s x rule: step_cases)
  case unchanged
  with assms show ?thesis by simp
next
  case (book now fid n cabin name email b)
  with ids_below_counter_add [OF assms] show ?thesis by simp
next
  case (cancel now bid email b)
  with ids_below_counter_change [OF assms map_of_is_key] show ?thesis by simp
qed

lemma keys_step:
  assumes "ids_below_counter s"
  shows "map fst (bookings (snd (step s x))) = map fst (bookings s) @ allocated [fst (step s x)]"
proof (cases s x rule: step_cases)
  case unchanged
  then show ?thesis by simp
next
  case (book now fid n cabin name email b)
  with next_id_fresh [OF assms] show ?thesis
    by (simp add: keys_update del: set_map)
next
  case (cancel now bid email b)
  with map_of_is_key [of "bookings s" bid b] show ?thesis
    by (simp add: keys_update del: set_map)
qed

lemma alloc_step:
  "allocated [fst (step s x)] =
     map (\<lambda>i. ''BK'' @ str_int i) [booking_counter s .. booking_counter (snd (step s x)) - 1]"
proof (cases s x rule: step_cases)
  case unchanged
  then show ?thesis by simp
next
  case (book now fid n cabin name email b)
  then show ?thesis by simp
next
  case (cancel now bid email b)
  then show ?thesis by simp
qed

lemma counter_step: "booking_counter s \<le> booking_counter (snd (step s x))"
  by (cases s x rule: step_cases) simp_all

lemma frame_step:
  assumes "ids_below_counter s" and "map_of (bookings s) k = Some b"
  shows "\<exists>b'. map_of (bookings (snd (step s x))) k = Some b' \<and>
           b'\<lparr>status := status b, cancellation_date := cancellation_date b\<rparr> = b"
proof (cases s x rule: step_cases)
  case unchanged
  with assms show ?thesis by simp
next
  case (book now fid n cabin name email b0)
  from next_id_fresh [OF assms(1)] map_of_is_key [OF assms(2)] book(3)
  have "k \<noteq> booking_id b0" by metis
  with book assms show ?thesis
    by (simp add: map_of_update_other)
next
  case (cancel now bid email b0)
  with assms show ?thesis
    by (cases "k = bid") (simp_all add: map_of_update_same map_of_update_other)
qed

section \<open>Runs: the booking ids\<close>

lemma ids_below_counter_run: "ids_below_counter s \<Longrightarrow> ids_below_counter (run s ops)"
  by (induction ops arbitrary: s) (simp_all add: ids_below_counter_step)

lemma counter_run: "booking_counter s \<le> booking_counter (run s ops)"
proof (induction ops arbitrary: s)
  case Nil
  show ?case by simp
next
  case (Cons x xs)
  from counter_step [of s x] Cons [of "snd (step s x)"] show ?case by simp
qed

lemma allocated_Cons: "allocated (r # rs) = allocated [r] @ allocated rs"
  by (cases "r # rs" rule: allocated.cases) simp_all

lemma upto_join: "i \<le> j \<Longrightarrow> j \<le> k \<Longrightarrow> [i..j - 1] @ [j..k - 1] = [i..k - 1]" for i j k :: int
  by (cases "j = k") (simp_all add: upto_split1 [of i j "k - 1"])

lemma alloc_run:
  "allocated (responses s ops) =
     map (\<lambda>i. ''BK'' @ str_int i) [booking_counter s .. booking_counter (run s ops) - 1]"
proof (induction ops arbitrary: s)
  case Nil
  show ?case by simp
next
  case (Cons x xs)
  have "allocated (responses s (x # xs)) =
      allocated [fst (step s x)] @ allocated (responses (snd (step s x)) xs)"
    by (simp add: allocated_Cons [of "fst (step s x)" "responses (snd (step s x)) xs"])
  also have "\<dots> = map (\<lambda>i. ''BK'' @ str_int i)
      ([booking_counter s .. booking_counter (snd (step s x)) - 1] @
       [booking_counter (snd (step s x)) .. booking_counter (run (snd (step s x)) xs) - 1])"
    by (simp add: alloc_step Cons)
  also have "\<dots> = map (\<lambda>i. ''BK'' @ str_int i)
      [booking_counter s .. booking_counter (run (snd (step s x)) xs) - 1]"
    by (simp only: upto_join [OF counter_step counter_run])
  finally show ?case by simp
qed

lemma keys_run:
  "ids_below_counter s \<Longrightarrow>
   map fst (bookings (run s ops)) = map fst (bookings s) @ allocated (responses s ops)"
proof (induction ops arbitrary: s)
  case Nil
  show ?case by simp
next
  case (Cons x xs)
  from Cons.IH [OF ids_below_counter_step [OF Cons.prems]] keys_step [OF Cons.prems, of x]
  show ?case
    by (simp add: allocated_Cons [of "fst (step s x)" "responses (snd (step s x)) xs"])
qed

lemma distinct_ids: "distinct (map (\<lambda>i. ''BK'' @ str_int i) [i..j])"
  by (auto simp: distinct_map inj_on_def dest: str_int_inj)

lemma new_ids_fresh:
  assumes "ids_below_counter s"
  shows "set (map (\<lambda>i. ''BK'' @ str_int i) [booking_counter s .. j]) \<inter> set (map fst (bookings s)) = {}"
proof -
  have False if "booking_counter s \<le> i" and "''BK'' @ str_int i \<in> set (map fst (bookings s))" for i
  proof -
    from assms that(2) obtain i' where "i' < booking_counter s" "''BK'' @ str_int i = ''BK'' @ str_int i'"
      unfolding ids_below_counter_def by blast
    then have "i = i'" by (auto dest: str_int_inj)
    with that(1) \<open>i' < booking_counter s\<close> show False by simp
  qed
  then have "x \<notin> set (map fst (bookings s))"
    if "x \<in> set (map (\<lambda>i. ''BK'' @ str_int i) [booking_counter s .. j])" for x
  proof -
    from that obtain i where "booking_counter s \<le> i" "x = ''BK'' @ str_int i"
      by auto
    with \<open>\<And>i. booking_counter s \<le> i \<Longrightarrow> ''BK'' @ str_int i \<in> set (map fst (bookings s)) \<Longrightarrow> False\<close>
    show ?thesis by blast
  qed
  then show ?thesis by blast
qed

lemma seed_ids_below_counter: "ids_below_counter seed"
  by (simp add: ids_below_counter_def seed_def)

lemma str_int_1001: "str_int 1001 = ''1001''"
  by code_simp

text \<open>
  C8. From a state whose ledger keys are "BK" numbers below the counter (the seed state is
  one, and every run keeps the property), the ids that the successful bookings of a run
  return are "BK" followed by the consecutive numbers from the counter at the start up to
  the counter at the end: strictly increasing numbers, pairwise different ids, none of
  them a key the ledger had before, whatever cancellations the run contains. The keys of
  the ledger after the run are the keys before it, in their order, followed by those ids:
  no key is ever removed.
\<close>

theorem booking_ids_monotonic:
  assumes "ids_below_counter s"
  shows "allocated (responses s ops) =
           map (\<lambda>i. ''BK'' @ str_int i) [booking_counter s .. booking_counter (run s ops) - 1] \<and>
         sorted_wrt (<) [booking_counter s .. booking_counter (run s ops) - 1] \<and>
         distinct (allocated (responses s ops)) \<and>
         set (allocated (responses s ops)) \<inter> set (map fst (bookings s)) = {} \<and>
         map fst (bookings (run s ops)) = map fst (bookings s) @ allocated (responses s ops) \<and>
         set (map fst (bookings s)) \<subseteq> set (map fst (bookings (run s ops))) \<and>
         ids_below_counter (run s ops) \<and>
         ids_below_counter seed"
proof (intro conjI)
  show "allocated (responses s ops) =
           map (\<lambda>i. ''BK'' @ str_int i) [booking_counter s .. booking_counter (run s ops) - 1]"
    by (rule alloc_run)
  show "sorted_wrt (<) [booking_counter s .. booking_counter (run s ops) - 1]"
    by (rule sorted_wrt_upto)
  show "distinct (allocated (responses s ops))"
    by (simp only: alloc_run distinct_ids)
  show "set (allocated (responses s ops)) \<inter> set (map fst (bookings s)) = {}"
    by (simp only: alloc_run new_ids_fresh [OF assms])
  show k: "map fst (bookings (run s ops)) = map fst (bookings s) @ allocated (responses s ops)"
    by (rule keys_run [OF assms])
  show "set (map fst (bookings s)) \<subseteq> set (map fst (bookings (run s ops)))"
    by (simp only: k set_append Un_upper1)
  show "ids_below_counter (run s ops)"
    by (rule ids_below_counter_run [OF assms])
  show "ids_below_counter seed"
    by (rule seed_ids_below_counter)
qed

theorem booking_ids_monotonic_witness:
  "allocated (responses seed
     [Book ''2025-02-01T10:00:00'' ''JL005'' 2 ''business'' ''John Smith'' ''john@email.com'',
      Cancel ''2025-02-02T10:00:00'' ''BK1000'' ''john@email.com'',
      Book ''2025-02-03T10:00:00'' ''JL005'' 2 ''economy'' ''John Smith'' ''john@email.com''])
     = [''BK1000'', ''BK1001''] \<and>
   map fst (bookings (run seed
     [Book ''2025-02-01T10:00:00'' ''JL005'' 2 ''business'' ''John Smith'' ''john@email.com'',
      Cancel ''2025-02-02T10:00:00'' ''BK1000'' ''john@email.com'',
      Book ''2025-02-03T10:00:00'' ''JL005'' 2 ''economy'' ''John Smith'' ''john@email.com'']))
     = [''BK1000'', ''BK1001'']"
proof -
  have c: "booking_counter (run seed
     [Book ''2025-02-01T10:00:00'' ''JL005'' 2 ''business'' ''John Smith'' ''john@email.com'',
      Cancel ''2025-02-02T10:00:00'' ''BK1000'' ''john@email.com'',
      Book ''2025-02-03T10:00:00'' ''JL005'' 2 ''economy'' ''John Smith'' ''john@email.com'']) = 1002"
    by code_simp
  have s: "booking_counter seed = 1000" "bookings seed = []"
    by (simp_all add: seed_def)
  have u: "[1000 .. 1002 - 1 :: int] = [1000, 1001]"
    by code_simp
  from booking_ids_monotonic [OF seed_ids_below_counter, of
     "[Book ''2025-02-01T10:00:00'' ''JL005'' 2 ''business'' ''John Smith'' ''john@email.com'',
      Cancel ''2025-02-02T10:00:00'' ''BK1000'' ''john@email.com'',
      Book ''2025-02-03T10:00:00'' ''JL005'' 2 ''economy'' ''John Smith'' ''john@email.com'']"]
  show ?thesis
    unfolding c s u by (simp add: str_int_1000 str_int_1001)
qed

section \<open>Runs: the stored total price\<close>

lemma ids_below_counter_event: "ids_below_counter s \<Longrightarrow> ids_below_counter (apply_event s e)"
  by (cases e) (simp_all add: ids_below_counter_step, simp add: ids_below_counter_def)

lemma ids_below_counter_evolve: "ids_below_counter s \<Longrightarrow> ids_below_counter (evolve s es)"
  by (induction es arbitrary: s) (simp_all add: ids_below_counter_event)

lemma frame_event:
  assumes "ids_below_counter s" and "map_of (bookings s) k = Some b"
  shows "\<exists>b'. map_of (bookings (apply_event s e)) k = Some b' \<and>
           b'\<lparr>status := status b, cancellation_date := cancellation_date b\<rparr> = b"
proof (cases e)
  case (Call x)
  with frame_step [OF assms, of x] show ?thesis by simp
next
  case (Edit db)
  with assms(2) show ?thesis by simp
qed

lemma frame_evolve:
  assumes "ids_below_counter s" and "map_of (bookings s) k = Some b"
  shows "\<exists>b'. map_of (bookings (evolve s es)) k = Some b' \<and>
           b'\<lparr>status := status b, cancellation_date := cancellation_date b\<rparr> = b"
  using assms
proof (induction es arbitrary: s b)
  case Nil
  then show ?case by simp
next
  case (Cons e es)
  from frame_event [OF Cons.prems, of e] obtain b1 where
    b1: "map_of (bookings (apply_event s e)) k = Some b1"
      "b1\<lparr>status := status b, cancellation_date := cancellation_date b\<rparr> = b"
    by blast
  from Cons.IH [OF ids_below_counter_event [OF Cons.prems(1)] b1(1)] obtain b2 where
    b2: "map_of (bookings (evolve (apply_event s e) es)) k = Some b2"
      "b2\<lparr>status := status b1, cancellation_date := cancellation_date b1\<rparr> = b1"
    by blast
  have "b2\<lparr>status := status b, cancellation_date := cancellation_date b\<rparr> =
      (b2\<lparr>status := status b1, cancellation_date := cancellation_date b1\<rparr>)
        \<lparr>status := status b, cancellation_date := cancellation_date b\<rparr>"
    by simp
  also have "\<dots> = b" by (simp only: b2(2) b1(2))
  finally show ?case using b2(1) by simp
qed

lemma booked_counter: "booking_counter booked = 1001"
  by code_simp

lemma booked_ids_below_counter: "ids_below_counter booked"
  unfolding ids_below_counter_def
  by (simp add: booked_bookings booked_counter) (rule exI [of _ 1000], simp add: str_int_1000)

text \<open>
  C10. Take a state whose ledger keys are "BK" numbers below the counter (every state
  that evolves from the seed state is one) and a booking of its ledger. After any sequence
  of engine calls and of edits of the inventory made outside the engine (a changed fare
  among them), the ledger still has a booking under that id, with the same total price;
  the booking differs from the original in its status and cancellation date at most.
\<close>

theorem total_price_frozen:
  assumes "ids_below_counter s" and "map_of (bookings s) k = Some b"
  shows "(\<exists>b'. map_of (bookings (evolve s es)) k = Some b' \<and>
            total_price b' = total_price b \<and>
            b'\<lparr>status := status b, cancellation_date := cancellation_date b\<rparr> = b) \<and>
         ids_below_counter (evolve s es) \<and>
         ids_below_counter (evolve seed es0)"
proof (intro conjI)
  from frame_evolve [OF assms, of es] obtain b' where
    b': "map_of (bookings (evolve s es)) k = Some b'"
      "b'\<lparr>status := status b, cancellation_date := cancellation_date b\<rparr> = b"
    by blast
  have "total_price b' =
      total_price (b'\<lparr>status := status b, cancellation_date := cancellation_date b\<rparr>)"
    by simp
  with b' show "\<exists>b'. map_of (bookings (evolve s es)) k = Some b' \<and>
            total_price b' = total_price b \<and>
            b'\<lparr>status := status b, cancellation_date := cancellation_date b\<rparr> = b"
    by simp
  show "ids_below_counter (evolve s es)"
    by (rule ids_below_counter_evolve [OF assms(1)])
  show "ids_below_counter (evolve seed es0)"
    by (rule ids_below_counter_evolve [OF seed_ids_below_counter])
qed

theorem total_price_frozen_witness:
  "\<exists>b'. map_of (bookings (evolve booked
       [Edit (map (\<lambda>(r, fs). (r, map (\<lambda>f. f\<lparr>f_price := 2 * f_price f\<rparr>) fs)) FLIGHTS_DB),
        Call (Book ''2025-02-03T10:00:00'' ''JL005'' 1 ''first'' ''Ann Lee'' ''ann.lee@mail.org''),
        Call (Cancel ''2025-02-04T10:00:00'' ''BK1000'' ''john@email.com'')])) ''BK1000'' = Some b' \<and>
     total_price b' = 6000"
proof -
  have b: "map_of (bookings booked) ''BK1000'' = Some bk1000"
    by (simp add: booked_bookings)
  from total_price_frozen [OF booked_ids_below_counter b, of
      "[Edit (map (\<lambda>(r, fs). (r, map (\<lambda>f. f\<lparr>f_price := 2 * f_price f\<rparr>) fs)) FLIGHTS_DB),
        Call (Book ''2025-02-03T10:00:00'' ''JL005'' 1 ''first'' ''Ann Lee'' ''ann.lee@mail.org''),
        Call (Cancel ''2025-02-04T10:00:00'' ''BK1000'' ''john@email.com'')]" "[]"]
  obtain b' where "map_of (bookings (evolve booked
       [Edit (map (\<lambda>(r, fs). (r, map (\<lambda>f. f\<lparr>f_price := 2 * f_price f\<rparr>) fs)) FLIGHTS_DB),
        Call (Book ''2025-02-03T10:00:00'' ''JL005'' 1 ''first'' ''Ann Lee'' ''ann.lee@mail.org''),
        Call (Cancel ''2025-02-04T10:00:00'' ''BK1000'' ''john@email.com'')])) ''BK1000'' = Some b'"
    and "total_price b' = total_price bk1000"
    by blast
  moreover have "total_price bk1000 = 6000"
    by (simp add: bk1000_def)
  ultimately show ?thesis
    by metis
qed

section \<open>Runs: seats and passenger counts\<close>

text \<open>
  What holds of every run from the seed state, whatever the passenger counts: each flight
  reads its initial seats less the passengers of its CONFIRMED bookings. When no booking
  request has a negative count, the seats also stay between 0 and the initial seats and
  the CONFIRMED passengers never exceed the initial seats.
\<close>

lemma seats_of_take:
  "find_flight fid db \<noteq> None \<Longrightarrow>
   seats_of (take_seats fid n db) fid' =
     (if fid' = fid then map_option (\<lambda>c. c - n) (seats_of db fid) else seats_of db fid')"
  by (auto simp: seats_of_def find_flight_take_same find_flight_take_other)

lemma seats_of_return:
  "seats_of (return_seats fid n db) fid' =
     map_option (\<lambda>c. if fid' = fid then c + n else c) (seats_of db fid')"
  by (cases "find_flight fid' db") (auto simp: seats_of_def find_flight_return)

lemma update_fresh: "k \<notin> set (map fst al) \<Longrightarrow> AList.update k v al = al @ [(k, v)]"
  by (induction al) auto

lemma confirmed_passengers_add:
  "k \<notin> set (map fst al) \<Longrightarrow>
   confirmed_passengers (AList.update k b al) fid =
     confirmed_passengers al fid +
       (if status b = CONFIRMED \<and> flight_id b = fid then passengers b else 0)"
  by (simp add: update_fresh confirmed_passengers_def del: set_map)

lemma confirmed_passengers_change:
  "distinct (map fst al) \<Longrightarrow> map_of al k = Some b \<Longrightarrow>
   confirmed_passengers (AList.update k b' al) fid =
     confirmed_passengers al fid
       - (if status b = CONFIRMED \<and> flight_id b = fid then passengers b else 0)
       + (if status b' = CONFIRMED \<and> flight_id b' = fid then passengers b' else 0)"
proof (induction al)
  case Nil
  then show ?case by simp
next
  case (Cons p al)
  obtain k0 b0 where p: "p = (k0, b0)" by (cases p)
  show ?case
  proof (cases "k0 = k")
    case True
    with Cons.prems p show ?thesis
      by (simp add: confirmed_passengers_def)
  next
    case False
    with Cons.prems p have "distinct (map fst al)" "map_of al k = Some b"
      by simp_all
    from Cons.IH [OF this] False p show ?thesis
      by (simp add: confirmed_passengers_def)
  qed
qed

lemma conserved_step:
  assumes "ids_below_counter s" and "distinct (map fst (bookings s))" and "conserved db0 s"
  shows "conserved db0 (snd (step s x)) \<and> distinct (map fst (bookings (snd (step s x))))"
proof (cases s x rule: step_cases)
  case unchanged
  with assms show ?thesis by simp
next
  case (book now fid n cabin name email b)
  from book(7) have found: "find_flight fid (flights_db s) \<noteq> None" by auto
  have fresh: "booking_id b \<notin> set (map fst (bookings s))"
    using next_id_fresh [OF assms(1)] book(3) by simp
  have "seats_of (flights_db (snd (step s x))) fid' =
      map_option (\<lambda>c. c - confirmed_passengers (bookings (snd (step s x))) fid') (seats_of db0 fid')"
    for fid'
  proof -
    from assms(3) have c: "seats_of (flights_db s) fid' =
        map_option (\<lambda>c. c - confirmed_passengers (bookings s) fid') (seats_of db0 fid')"
      unfolding conserved_def by blast
    from c show ?thesis
      by (cases "seats_of db0 fid'")
         (auto simp: book(4,5,6,8) seats_of_take [OF found] confirmed_passengers_add [OF fresh])
  qed
  moreover have "distinct (map fst (bookings (snd (step s x))))"
    by (simp add: book(8) distinct_update assms(2))
  ultimately show ?thesis
    unfolding conserved_def by blast
next
  case (cancel now bid email b)
  have "seats_of (flights_db (snd (step s x))) fid' =
      map_option (\<lambda>c. c - confirmed_passengers (bookings (snd (step s x))) fid') (seats_of db0 fid')"
    for fid'
  proof -
    from assms(3) have c: "seats_of (flights_db s) fid' =
        map_option (\<lambda>c. c - confirmed_passengers (bookings s) fid') (seats_of db0 fid')"
      unfolding conserved_def by blast
    from c show ?thesis
      by (cases "seats_of db0 fid'")
         (auto simp: cancel(4,5) seats_of_return
            confirmed_passengers_change [OF assms(2) cancel(3)])
  qed
  moreover have "distinct (map fst (bookings (snd (step s x))))"
    by (simp add: cancel(5) distinct_update assms(2))
  ultimately show ?thesis
    unfolding conserved_def by blast
qed

lemma conserved_run:
  assumes "ids_below_counter s" and "distinct (map fst (bookings s))" and "conserved db0 s"
  shows "conserved db0 (run s ops)"
  using assms
proof (induction ops arbitrary: s)
  case Nil
  then show ?case by simp
next
  case (Cons x xs)
  from conserved_step [OF Cons.prems, of x] ids_below_counter_step [OF Cons.prems(1), of x]
  show ?case by (simp add: Cons.IH)
qed

lemma conserved_seed: "conserved FLIGHTS_DB seed"
  by (simp add: conserved_def seed_def confirmed_passengers_def option.map_ident)

lemma seat_conservation:
  "seats_of (flights_db (run seed ops)) fid =
     map_option (\<lambda>c. c - confirmed_passengers (bookings (run seed ops)) fid)
       (seats_of FLIGHTS_DB fid)"
proof -
  have "distinct (map fst (bookings seed))"
    by (simp add: seed_def)
  from conserved_run [OF seed_ids_below_counter this conserved_seed, of ops]
  show ?thesis
    unfolding conserved_def by blast
qed

lemma set_update_subset: "set (AList.update k v al) \<subseteq> insert (k, v) (set al)"
  by (induction al) auto

lemma map_of_in_set: "map_of al k = Some v \<Longrightarrow> (k, v) \<in> set al"
  by (rule map_of_SomeD)

lemma within_capacity_step:
  assumes "within_capacity s"
    and "case x of Book now fid n cabin name email \<Rightarrow> 0 \<le> n | _ \<Rightarrow> True"
  shows "within_capacity (snd (step s x))"
proof (cases s x rule: step_cases)
  case unchanged
  with assms show ?thesis by simp
next
  case (book now fid n cabin name email b)
  from book(7) obtain rt fl where fl: "find_flight fid (flights_db s) = Some (rt, fl)" "n \<le> f_seats fl"
    by blast
  from assms(2) book(1) have n: "0 \<le> n" by simp
  have 1: "0 \<le> passengers (snd p)" if "p \<in> set (bookings (snd (step s x)))" for p
  proof -
    from that set_update_subset [of "booking_id b" b "bookings s"]
    have "p = (booking_id b, b) \<or> p \<in> set (bookings s)"
      by (auto simp: book(8))
    with assms(1) n book(5) show ?thesis
      unfolding within_capacity_def by auto
  qed
  have 2: "0 \<le> c" if "seats_of (flights_db (snd (step s x))) fid' = Some c" for fid' c
  proof (cases "fid' = fid")
    case True
    with that fl show ?thesis
      by (simp add: book(8) seats_of_def find_flight_take_same)
  next
    case False
    with that have "seats_of (flights_db s) fid' = Some c"
      by (simp add: book(8) seats_of_def find_flight_take_other)
    with assms(1) show ?thesis
      unfolding within_capacity_def by blast
  qed
  from 1 2 show ?thesis
    unfolding within_capacity_def by blast
next
  case (cancel now bid email b)
  from assms(1) map_of_in_set [OF cancel(3)] have pb: "0 \<le> passengers b"
    unfolding within_capacity_def by force
  have 1: "0 \<le> passengers (snd p)" if "p \<in> set (bookings (snd (step s x)))" for p
  proof -
    from that set_update_subset [of bid "b\<lparr>status := CANCELLED, cancellation_date := Some now\<rparr>" "bookings s"]
    have "p = (bid, b\<lparr>status := CANCELLED, cancellation_date := Some now\<rparr>) \<or> p \<in> set (bookings s)"
      by (auto simp: cancel(5))
    with assms(1) pb show ?thesis
      unfolding within_capacity_def by auto
  qed
  have 2: "0 \<le> c" if "seats_of (flights_db (snd (step s x))) fid' = Some c" for fid' c
  proof -
    from that obtain c' where c': "seats_of (flights_db s) fid' = Some c'"
      and c: "c = (if fid' = flight_id b then c' + passengers b else c')"
      by (auto simp: cancel(5) seats_of_return)
    from assms(1) c' have "0 \<le> c'"
      unfolding within_capacity_def by blast
    with c pb show ?thesis by simp
  qed
  from 1 2 show ?thesis
    unfolding within_capacity_def by blast
qed

lemma within_capacity_run:
  "within_capacity s \<Longrightarrow> counts_nonneg ops \<Longrightarrow> within_capacity (run s ops)"
proof (induction ops arbitrary: s)
  case Nil
  then show ?case by simp
next
  case (Cons x xs)
  from Cons.prems(2) have x: "case x of Book now fid n cabin name email \<Rightarrow> 0 \<le> n | _ \<Rightarrow> True"
    and xs: "counts_nonneg xs"
    by (simp_all add: counts_nonneg_def)
  from Cons.IH [OF within_capacity_step [OF Cons.prems(1) x] xs] show ?case by simp
qed

lemma within_capacity_seed: "within_capacity seed"
proof -
  have "0 \<le> c" if "seats_of FLIGHTS_DB fid = Some c" for fid c
    using that
    by (auto simp: seats_of_def FLIGHTS_DB_def split: if_splits)
  then show ?thesis
    by (simp add: within_capacity_def seed_def)
qed

lemma confirmed_passengers_nonneg:
  "\<forall>p \<in> set al. 0 \<le> passengers (snd p) \<Longrightarrow> 0 \<le> confirmed_passengers al fid"
  unfolding confirmed_passengers_def
  by (rule sum_list_nonneg) auto

lemma seat_bounds_if_counts_nonneg:
  assumes "counts_nonneg ops" and "seats_of FLIGHTS_DB fid = Some c0"
  shows "\<exists>c. seats_of (flights_db (run seed ops)) fid = Some c \<and> 0 \<le> c \<and> c \<le> c0 \<and>
           c = c0 - confirmed_passengers (bookings (run seed ops)) fid \<and>
           confirmed_passengers (bookings (run seed ops)) fid \<le> c0"
proof -
  let ?s = "run seed ops"
  from seat_conservation [of ops fid] assms(2)
  have c: "seats_of (flights_db ?s) fid = Some (c0 - confirmed_passengers (bookings ?s) fid)"
    by simp
  from within_capacity_run [OF within_capacity_seed assms(1)]
  have w: "within_capacity ?s" .
  with c have 1: "0 \<le> c0 - confirmed_passengers (bookings ?s) fid"
    unfolding within_capacity_def by blast
  from w have 2: "0 \<le> confirmed_passengers (bookings ?s) fid"
    unfolding within_capacity_def by (blast intro: confirmed_passengers_nonneg)
  from c 1 2 show ?thesis by simp
qed

text \<open>
  C1. \<^verbatim>\<open>book_flight\<close> does not check the passenger count, so a run from the seed state
  leaves the range of seats: a booking for -5 passengers on JL005 (23 seats) raises its
  seats to 28; booking the 28 seats and then cancelling the first booking leaves -5 seats,
  with 28 passengers CONFIRMED on a flight of 23 seats.
\<close>

theorem seats_out_of_range:
  "seats_of FLIGHTS_DB ''JL005'' = Some 23 \<and>
   seats_of (flights_db (run seed
     [Book ''2025-02-01T10:00:00'' ''JL005'' (- 5) ''economy'' ''Ann Lee'' ''ann.lee@mail.org''])) ''JL005''
     = Some 28 \<and>
   seats_of (flights_db (run seed
     [Book ''2025-02-01T10:00:00'' ''JL005'' (- 5) ''economy'' ''Ann Lee'' ''ann.lee@mail.org'',
      Book ''2025-02-02T10:00:00'' ''JL005'' 28 ''economy'' ''Bob Ray'' ''bob.ray@mail.org'',
      Cancel ''2025-02-03T10:00:00'' ''BK1000'' ''ann.lee@mail.org''])) ''JL005''
     = Some (- 5) \<and>
   confirmed_passengers (bookings (run seed
     [Book ''2025-02-01T10:00:00'' ''JL005'' (- 5) ''economy'' ''Ann Lee'' ''ann.lee@mail.org'',
      Book ''2025-02-02T10:00:00'' ''JL005'' 28 ''economy'' ''Bob Ray'' ''bob.ray@mail.org'',
      Cancel ''2025-02-03T10:00:00'' ''BK1000'' ''ann.lee@mail.org''])) ''JL005''
     = 28"
  by code_simp

text \<open>
  C9. \<^verbatim>\<open>book_flight\<close> stores a booking for any passenger count the seats cover: from
  the seed state it confirms a booking for -5 passengers (total price -6000) and one for
  10 passengers, the count that \<^verbatim>\<open>check_flight_availability\<close> refuses. The copy in the
  mock variant confirms the booking for -5 passengers too.
\<close>

theorem book_flight_any_count:
  "fst (book_flight seed ''2025-02-01T10:00:00'' ''JL005'' (- 5) ''economy'' ''Ann Lee'' ''ann.lee@mail.org'') =
     Inr \<lparr>booking_id = ''BK1000'', flight_id = ''JL005'', route = ''NYC-TYO'', passengers = - 5,
          cabin_class = ''economy'', passenger_name = ''Ann Lee'',
          passenger_email = ''ann.lee@mail.org'', total_price = - 6000, departure = ''13:00'',
          arrival = ''16:00+1'', status = CONFIRMED, booking_date = ''2025-02-01T10:00:00'',
          cancellation_date = None\<rparr> \<and>
   fst (book_flight seed ''2025-02-01T10:00:00'' ''BA001'' 10 ''economy'' ''Ann Lee'' ''ann.lee@mail.org'') =
     Inr \<lparr>booking_id = ''BK1000'', flight_id = ''BA001'', route = ''NYC-LON'', passengers = 10,
          cabin_class = ''economy'', passenger_name = ''Ann Lee'',
          passenger_email = ''ann.lee@mail.org'', total_price = 8500, departure = ''08:00'',
          arrival = ''20:00'', status = CONFIRMED, booking_date = ''2025-02-01T10:00:00'',
          cancellation_date = None\<rparr> \<and>
   fst (check_flight_availability seed ''BA001'' 10) = Inl InvalidPassengerCount \<and>
   fst (mock_book_flight mock_seed ''JL005'' (- 5) ''economy'' ''Ann Lee'' ''ann.lee@mail.org'') =
     Inr \<lparr>mb_booking_id = ''BK1000'', mb_flight_id = ''JL005'', mb_passengers = - 5,
          mb_cabin_class = ''economy'', mb_passenger_name = ''Ann Lee'',
          mb_total_price = - 6000, mb_status = CONFIRMED\<rparr>"
  by code_simp

theorem book_flight_any_count_witness:
  "\<exists>b. fst (book_flight seed ''2025-02-01T10:00:00'' ''JL005'' (- 5) ''economy'' ''Ann Lee''
              ''ann.lee@mail.org'') = Inr b \<and> passengers b < 1 \<and> status b = CONFIRMED"
  using book_flight_any_count by simp

end
